theory Spec2Isabelle
  imports Main "HOL-Library.Word" "HOL-Library.Monad_Syntax"
begin

unbundle bit_operations_syntax

section \<open>Memory model\<close>

text \<open>
  A C buffer is the list of the bytes that are allocated behind the pointer; the size
  argument that travels with the pointer is a separate number. Every access is checked
  against the allocation: an access outside it is undefined behaviour, the value
  \<open>None\<close>. The functions of \<^verbatim>\<open>OpusHeader.cpp\<close> therefore return options; \<open>Some\<close>
  carries what the C function returns together with the memory it has written.
  Values of type \<^verbatim>\<open>size_t\<close> are kept as natural numbers; the places where the
  source can wrap around are written out with \<open>size_t_mod\<close>.
\<close>

type_synonym byte = "8 word"
type_synonym buffer = "byte list"

definition size_t_mod :: int where
  \<comment> \<open>\<^verbatim>\<open>size_t\<close> on the 64-bit targets\<close>
  "size_t_mod = 2 ^ 64"

definition size_sub :: "nat \<Rightarrow> nat \<Rightarrow> nat" where
  \<comment> \<open>\<^verbatim>\<open>a - b\<close> on \<^verbatim>\<open>size_t\<close>\<close>
  "size_sub a b = (if b \<le> a then a - b else nat ((int a - int b) mod size_t_mod))"

definition size_of_int :: "int \<Rightarrow> nat" where
  \<comment> \<open>conversion of an \<^verbatim>\<open>int\<close> to \<^verbatim>\<open>size_t\<close>\<close>
  "size_of_int x = nat (x mod size_t_mod)"

definition rd :: "buffer \<Rightarrow> nat \<Rightarrow> byte option" where
  "rd data i = (if i < length data then Some (data ! i) else None)"

definition wr :: "buffer \<Rightarrow> nat \<Rightarrow> byte \<Rightarrow> buffer option" where
  "wr out i v = (if i < length out then Some (out[i := v]) else None)"

definition memset_zero :: "buffer \<Rightarrow> nat \<Rightarrow> buffer option" where
  \<comment> \<open>\<^verbatim>\<open>memset(out, 0, n)\<close>\<close>
  "memset_zero out n =
     (if n \<le> length out then Some (replicate n 0 @ drop n out) else None)"

definition memcpy :: "buffer \<Rightarrow> nat \<Rightarrow> byte list \<Rightarrow> nat \<Rightarrow> buffer option" where
  \<comment> \<open>\<^verbatim>\<open>memcpy(out + off, src, n)\<close>\<close>
  "memcpy out off src n =
     (if n \<le> length src \<and> off + n \<le> length out
      then Some (take off out @ take n src @ drop (off + n) out) else None)"

definition memcmp_eq :: "buffer \<Rightarrow> nat \<Rightarrow> byte list \<Rightarrow> nat \<Rightarrow> bool option" where
  \<comment> \<open>\<^verbatim>\<open>!memcmp(data + off, s, n)\<close>\<close>
  "memcmp_eq data off s n =
     (if n \<le> length s \<and> off + n \<le> length data
      then Some (take n (drop off data) = take n s) else None)"

text \<open>
  The object representation of an integer on the little-endian targets of the
  repository, as \<^verbatim>\<open>memcpy(dst, &x, sizeof x)\<close> copies it.
\<close>

definition bytes_of_string :: "string \<Rightarrow> byte list" where
  "bytes_of_string s = map (\<lambda>c. of_nat (of_char c)) s"

definition bytes_of_u16 :: "16 word \<Rightarrow> byte list" where
  "bytes_of_u16 w = [ucast w, ucast (drop_bit 8 w)]"

definition bytes_of_u32 :: "32 word \<Rightarrow> byte list" where
  "bytes_of_u32 w = [ucast w, ucast (drop_bit 8 w), ucast (drop_bit 16 w), ucast (drop_bit 24 w)]"

definition bytes_of_u64 :: "64 word \<Rightarrow> byte list" where
  "bytes_of_u64 w =
     [ucast w, ucast (drop_bit 8 w), ucast (drop_bit 16 w), ucast (drop_bit 24 w),
      ucast (drop_bit 32 w), ucast (drop_bit 40 w), ucast (drop_bit 48 w), ucast (drop_bit 56 w)]"

definition u64_of_bytes :: "byte list \<Rightarrow> 64 word" where
  \<comment> \<open>what a reader of an 8-byte view decodes: the little-endian value of the bytes\<close>
  "u64_of_bytes bs = foldr (\<lambda>b acc. ucast b OR push_bit 8 acc) bs 0"

section \<open>Constants and the header record\<close>

definition kMaxChannels :: int where
  "kMaxChannels = 8"

definition kOpusChannelMap :: "byte list list" where
  \<comment> \<open>the initialiser leaves the rest of each row at zero\<close>
  "kOpusChannelMap =
     [[0, 0, 0, 0, 0, 0, 0, 0],
      [0, 1, 0, 0, 0, 0, 0, 0],
      [0, 2, 1, 0, 0, 0, 0, 0],
      [0, 1, 2, 3, 0, 0, 0, 0],
      [0, 4, 1, 2, 3, 0, 0, 0],
      [0, 4, 1, 2, 3, 5, 0, 0],
      [0, 4, 1, 2, 3, 5, 6, 0],
      [0, 6, 1, 2, 3, 4, 5, 7]]"

definition channel_map_at :: "int \<Rightarrow> nat \<Rightarrow> byte option" where
  \<comment> \<open>\<^verbatim>\<open>kOpusChannelMap[r][c]\<close>; an index outside the 8 by 8 table is undefined\<close>
  "channel_map_at r c =
     (if 0 \<le> r \<and> r < kMaxChannels \<and> int c < kMaxChannels
      then Some (kOpusChannelMap ! nat r ! c) else None)"

definition kOpusHeaderSize :: nat where "kOpusHeaderSize = 19"
definition kOpusHeaderLabelOffset :: nat where "kOpusHeaderLabelOffset = 0"
definition kOpusHeaderVersionOffset :: nat where "kOpusHeaderVersionOffset = 8"
definition kOpusHeaderChannelsOffset :: nat where "kOpusHeaderChannelsOffset = 9"
definition kOpusHeaderSkipSamplesOffset :: nat where "kOpusHeaderSkipSamplesOffset = 10"
definition kOpusHeaderSampleRateOffset :: nat where "kOpusHeaderSampleRateOffset = 12"
definition kOpusHeaderGainOffset :: nat where "kOpusHeaderGainOffset = 16"
definition kOpusHeaderChannelMappingOffset :: nat where "kOpusHeaderChannelMappingOffset = 18"
definition kOpusHeaderNumStreamsOffset :: nat where "kOpusHeaderNumStreamsOffset = 19"
definition kOpusHeaderNumCoupledStreamsOffset :: nat where "kOpusHeaderNumCoupledStreamsOffset = 20"
definition kOpusHeaderStreamMapOffset :: nat where "kOpusHeaderStreamMapOffset = 21"
definition kMaxChannelsWithDefaultLayout :: int where "kMaxChannelsWithDefaultLayout = 2"

text \<open>
  Modelled from the spec: the declaration of \<^verbatim>\<open>struct OpusHeader\<close> is in
  \<^verbatim>\<open>OpusHeader.h\<close>, which is not among the sources. The fields and their widths are
  those of the data model: \<open>channels\<close> an integer (a C \<^verbatim>\<open>int\<close>, kept as its value),
  \<open>skip_samples\<close> unsigned 16-bit, \<open>gain_db\<close> signed 16-bit (the word holds its two's
  complement, \<open>sint\<close> reads it), \<open>channel_mapping\<close>, \<open>num_streams\<close> and \<open>num_coupled\<close>
  unsigned 8-bit, \<open>stream_map\<close> an array of 8 unsigned bytes (a list; an index outside
  it is undefined).
\<close>

record OpusHeader =
  channels :: int
  skip_samples :: "16 word"
  gain_db :: "16 word"
  channel_mapping :: byte
  num_streams :: byte
  num_coupled :: byte
  stream_map :: "byte list"

text \<open>
  Modelled from the spec: the macros of \<^verbatim>\<open>OpusHeader.h\<close>. The marker, the length field
  and the payload are 8 bytes each, a record is 24 bytes and the length field holds 8.
  The two marker strings are the ones the comment in \<^verbatim>\<open>WriteOpusHeaders\<close> names.
  The spec gives no number for \<^verbatim>\<open>AOPUS_UNIFIED_CSD_MINSIZE\<close>: it is the parameter
  \<open>minsize\<close> of the two functions that use it.
\<close>

definition AOPUS_CSD_CODEC_DELAY_MARKER :: "byte list" where
  "AOPUS_CSD_CODEC_DELAY_MARKER = bytes_of_string ''AOPUSDLY''"

definition AOPUS_CSD_SEEK_PREROLL_MARKER :: "byte list" where
  "AOPUS_CSD_SEEK_PREROLL_MARKER = bytes_of_string ''AOPUSPRL''"

definition AOPUS_CSD_SIZE :: nat where "AOPUS_CSD_SIZE = 8"
definition AOPUS_LENGTH :: "64 word" where "AOPUS_LENGTH = 8"
definition AOPUS_MARKER_SIZE :: nat where "AOPUS_MARKER_SIZE = 8"
definition AOPUS_LENGTH_SIZE :: nat where "AOPUS_LENGTH_SIZE = 8"
definition AOPUS_TOTAL_CSD_SIZE :: nat where
  "AOPUS_TOTAL_CSD_SIZE = AOPUS_MARKER_SIZE + AOPUS_LENGTH_SIZE + AOPUS_CSD_SIZE"

section \<open>ParseOpusHeader\<close>

text \<open>
  The C function returns \<^verbatim>\<open>false\<close> on every failure and logs the cause; the status keeps
  the cause, and \<open>parse_ok\<close> is the boolean the C function returns. The header is an
  out-parameter: the function returns it as it has left it, also on failure.
\<close>

datatype parse_status =
    ParseOK
  | HeaderTooSmall          \<comment> \<open>"Header size is too small."\<close>
  | BadChannelCount         \<comment> \<open>"Invalid Header, bad channel count"\<close>
  | MissingStreamMap        \<comment> \<open>"Invalid Header, missing stream map."\<close>
  | InsufficientStreamMap   \<comment> \<open>"Invalid stream map; insufficient data for current channel count"\<close>
  | InconsistentMapping     \<comment> \<open>"Inconsistent channel mapping."\<close>

definition parse_ok :: "parse_status \<Rightarrow> bool" where
  "parse_ok s = (s = ParseOK)"

definition ReadLE16 :: "buffer \<Rightarrow> nat \<Rightarrow> 32 word \<Rightarrow> 16 word option" where
  "ReadLE16 data data_size read_offset =
     (if unat (read_offset + 1) \<ge> data_size then Some 0
      else do {
        b0 \<leftarrow> rd data (unat read_offset);
        b1 \<leftarrow> rd data (unat (read_offset + 1));
        Some (ucast b0 OR push_bit 8 (ucast b1))
      })"

function parse_stream_map :: "buffer \<Rightarrow> OpusHeader \<Rightarrow> nat \<Rightarrow> OpusHeader option" where
  "parse_stream_map data header i =
     (if int i < channels header then
        do {
          b \<leftarrow> rd data (kOpusHeaderStreamMapOffset + i);
          m \<leftarrow> wr (stream_map header) i b;
          parse_stream_map data (header\<lparr>stream_map := m\<rparr>) (i + 1)
        }
      else Some header)"
  by pat_completeness auto
termination
  by (relation "measure (\<lambda>(data, header, i). nat (channels header) - i)") auto

definition ParseOpusHeader ::
  "buffer \<Rightarrow> nat \<Rightarrow> OpusHeader \<Rightarrow> (parse_status \<times> OpusHeader) option" where
  "ParseOpusHeader data data_size header =
     (if data_size < kOpusHeaderSize then Some (HeaderTooSmall, header)
      else do {
        c \<leftarrow> rd data kOpusHeaderChannelsOffset;
        let header = header\<lparr>channels := uint c\<rparr>;
        if channels header < 1 \<or> channels header > kMaxChannels
        then Some (BadChannelCount, header)
        else do {
          skip \<leftarrow> ReadLE16 data data_size (of_nat kOpusHeaderSkipSamplesOffset);
          let header = header\<lparr>skip_samples := skip\<rparr>;
          gain \<leftarrow> ReadLE16 data data_size (of_nat kOpusHeaderGainOffset);
          let header = header\<lparr>gain_db := gain\<rparr>;
          m \<leftarrow> rd data kOpusHeaderChannelMappingOffset;
          let header = header\<lparr>channel_mapping := m\<rparr>;
          if channel_mapping header = 0 then
            if channels header > kMaxChannelsWithDefaultLayout
            then Some (MissingStreamMap, header)
            else do {
              let header = header\<lparr>num_streams := 1\<rparr>;
              let header = header\<lparr>num_coupled := (if channels header > 1 then 1 else 0)\<rparr>;
              m0 \<leftarrow> wr (stream_map header) 0 0;
              m1 \<leftarrow> wr m0 1 1;
              Some (ParseOK, header\<lparr>stream_map := m1\<rparr>)
            }
          else if data_size < kOpusHeaderStreamMapOffset + nat (channels header)
          then Some (InsufficientStreamMap, header)
          else do {
            ns \<leftarrow> rd data kOpusHeaderNumStreamsOffset;
            let header = header\<lparr>num_streams := ns\<rparr>;
            nc \<leftarrow> rd data kOpusHeaderNumCoupledStreamsOffset;
            let header = header\<lparr>num_coupled := nc\<rparr>;
            if uint (num_streams header) + uint (num_coupled header) \<noteq> channels header
            then Some (InconsistentMapping, header)
            else do {
              header \<leftarrow> parse_stream_map data header 0;
              Some (ParseOK, header)
            }
          }
        }
      })"

section \<open>WriteOpusHeader\<close>

function write_stream_map :: "OpusHeader \<Rightarrow> buffer \<Rightarrow> nat \<Rightarrow> buffer option" where
  "write_stream_map header out i =
     (if int i < channels header then
        do {
          v \<leftarrow> channel_map_at (channels header - 1) i;
          out' \<leftarrow> wr out (kOpusHeaderStreamMapOffset + i) v;
          write_stream_map header out' (i + 1)
        }
      else Some out)"
  by pat_completeness auto
termination
  by (relation "measure (\<lambda>(header, out, i). nat (channels header) - i)") auto

definition WriteOpusHeader ::
  "OpusHeader \<Rightarrow> 32 word \<Rightarrow> buffer \<Rightarrow> nat \<Rightarrow> (int \<times> buffer) option" where
  "WriteOpusHeader header input_sample_rate output output_size =
     (let total_size = size_of_int (int kOpusHeaderStreamMapOffset + channels header) in
      if output_size < total_size then Some (- 1, output)
      else do {
        out \<leftarrow> memset_zero output output_size;
        out \<leftarrow> memcpy out kOpusHeaderLabelOffset (bytes_of_string ''OpusHead'') 8;
        out \<leftarrow> wr out kOpusHeaderVersionOffset 1;
        out \<leftarrow> wr out kOpusHeaderChannelsOffset (word_of_int (channels header));
        out \<leftarrow> memcpy out kOpusHeaderSkipSamplesOffset (bytes_of_u16 (skip_samples header)) 2;
        out \<leftarrow> memcpy out kOpusHeaderSampleRateOffset (bytes_of_u32 input_sample_rate) 4;
        out \<leftarrow> memcpy out kOpusHeaderGainOffset (bytes_of_u16 (gain_db header)) 2;
        if channels header > 2 then
          do {
            out \<leftarrow> wr out kOpusHeaderChannelMappingOffset 1;
            out \<leftarrow> wr out kOpusHeaderNumStreamsOffset (word_of_int (channels header));
            out \<leftarrow> wr out kOpusHeaderNumCoupledStreamsOffset 0;
            out \<leftarrow> write_stream_map header out 0;
            Some (int kOpusHeaderStreamMapOffset + channels header + 1, out)
          }
        else
          do {
            out \<leftarrow> wr out kOpusHeaderChannelMappingOffset 0;
            Some (int kOpusHeaderChannelMappingOffset + 1, out)
          }
      })"

section \<open>WriteOpusHeaders\<close>

definition WriteOpusHeaders ::
  "nat \<Rightarrow> OpusHeader \<Rightarrow> 32 word \<Rightarrow> buffer \<Rightarrow> nat \<Rightarrow> 64 word \<Rightarrow> 64 word
     \<Rightarrow> (int \<times> buffer) option" where
  "WriteOpusHeaders minsize header inputSampleRate output outputSize codecDelay seekPreRoll =
     (if outputSize < minsize then Some (- 1, output)
      else do {
        (headerLen, out) \<leftarrow> WriteOpusHeader header inputSampleRate output outputSize;
        if headerLen < 0 then Some (- 1, out)
        else if size_of_int headerLen \<ge> size_sub outputSize (2 * AOPUS_TOTAL_CSD_SIZE)
        then Some (- 1, out)
        else do {
          let length = AOPUS_LENGTH;
          \<comment> \<open>Add codec delay\<close>
          out \<leftarrow> memcpy out (nat headerLen) AOPUS_CSD_CODEC_DELAY_MARKER AOPUS_MARKER_SIZE;
          let headerLen = headerLen + int AOPUS_MARKER_SIZE;
          out \<leftarrow> memcpy out (nat headerLen) (bytes_of_u64 length) AOPUS_LENGTH_SIZE;
          let headerLen = headerLen + int AOPUS_LENGTH_SIZE;
          out \<leftarrow> memcpy out (nat headerLen) (bytes_of_u64 codecDelay) AOPUS_CSD_SIZE;
          let headerLen = headerLen + int AOPUS_CSD_SIZE;
          \<comment> \<open>Add skip pre roll\<close>
          out \<leftarrow> memcpy out (nat headerLen) AOPUS_CSD_SEEK_PREROLL_MARKER AOPUS_MARKER_SIZE;
          let headerLen = headerLen + int AOPUS_MARKER_SIZE;
          out \<leftarrow> memcpy out (nat headerLen) (bytes_of_u64 length) AOPUS_LENGTH_SIZE;
          let headerLen = headerLen + int AOPUS_LENGTH_SIZE;
          out \<leftarrow> memcpy out (nat headerLen) (bytes_of_u64 seekPreRoll) AOPUS_CSD_SIZE;
          let headerLen = headerLen + int AOPUS_CSD_SIZE;
          Some (headerLen, out)
        }
      })"

section \<open>GetOpusHeaderBuffers\<close>

text \<open>
  The six out-parameters. A pointer into \<^verbatim>\<open>data\<close> is its offset from \<^verbatim>\<open>data\<close>;
  \<^verbatim>\<open>NULL\<close> is \<open>None\<close>.
\<close>

record csd_views =
  opusHeadBuf :: "nat option"
  opusHeadSize :: nat
  codecDelayBuf :: "nat option"
  codecDelaySize :: nat
  seekPreRollBuf :: "nat option"
  seekPreRollSize :: nat

function scan_csd :: "buffer \<Rightarrow> nat \<Rightarrow> nat \<Rightarrow> csd_views \<Rightarrow> csd_views option" where
  \<comment> \<open>the \<^verbatim>\<open>while\<close> loop; \<open>bound\<close> is \<^verbatim>\<open>data_size - AOPUS_TOTAL_CSD_SIZE\<close>\<close>
  "scan_csd data bound i v =
     (if i < bound then
        do {
          is_delay \<leftarrow> memcmp_eq data i AOPUS_CSD_CODEC_DELAY_MARKER AOPUS_MARKER_SIZE;
          if is_delay then
            scan_csd data bound (i + AOPUS_TOTAL_CSD_SIZE)
              (v\<lparr>opusHeadSize := min (opusHeadSize v) i,
                 codecDelayBuf := Some (i + AOPUS_MARKER_SIZE + AOPUS_LENGTH_SIZE),
                 codecDelaySize := AOPUS_CSD_SIZE\<rparr>)
          else do {
            is_preroll \<leftarrow> memcmp_eq data i AOPUS_CSD_SEEK_PREROLL_MARKER AOPUS_MARKER_SIZE;
            if is_preroll then
              scan_csd data bound (i + AOPUS_TOTAL_CSD_SIZE)
                (v\<lparr>opusHeadSize := min (opusHeadSize v) i,
                   seekPreRollBuf := Some (i + AOPUS_MARKER_SIZE + AOPUS_LENGTH_SIZE),
                   seekPreRollSize := AOPUS_CSD_SIZE\<rparr>)
            else scan_csd data bound (i + 1) v
          }
        }
      else Some v)"
  by pat_completeness auto
termination
  by (relation "measure (\<lambda>(data, bound, i, v). bound - i)") (auto simp: AOPUS_TOTAL_CSD_SIZE_def AOPUS_MARKER_SIZE_def AOPUS_LENGTH_SIZE_def AOPUS_CSD_SIZE_def)

definition GetOpusHeaderBuffers :: "nat \<Rightarrow> buffer \<Rightarrow> nat \<Rightarrow> csd_views option" where
  "GetOpusHeaderBuffers minsize data data_size =
     (let v = \<lparr>opusHeadBuf = Some 0, opusHeadSize = data_size,
                codecDelayBuf = None, codecDelaySize = 0,
                seekPreRollBuf = None, seekPreRollSize = 0\<rparr>
      in if data_size \<ge> minsize
         then scan_csd data (size_sub data_size AOPUS_TOTAL_CSD_SIZE) 0 v
         else Some v)"

definition view_bytes :: "buffer \<Rightarrow> nat option \<Rightarrow> nat \<Rightarrow> byte list" where
  \<comment> \<open>the bytes a (pointer, size) view of \<^verbatim>\<open>data\<close> denotes; nothing for \<^verbatim>\<open>NULL\<close>\<close>
  "view_bytes data p n = (case p of None \<Rightarrow> [] | Some off \<Rightarrow> take n (drop off data))"

section \<open>The wire layout and sample inputs\<close>

definition opus_head_fixed :: "OpusHeader \<Rightarrow> 32 word \<Rightarrow> byte list" where
  \<comment> \<open>offsets 0 to 17 of the layout: label, version, channel count, pre-skip, rate, gain\<close>
  "opus_head_fixed header rate =
     bytes_of_string ''OpusHead'' @ [1, word_of_int (channels header)]
       @ bytes_of_u16 (skip_samples header) @ bytes_of_u32 rate @ bytes_of_u16 (gain_db header)"

definition sample_header :: "int \<Rightarrow> OpusHeader" where
  \<comment> \<open>a record with \<open>c\<close> channels, pre-skip 312 and gain -256, no mapping filled in\<close>
  "sample_header c =
     \<lparr>channels = c, skip_samples = 312, gain_db = 0xFF00, channel_mapping = 0,
      num_streams = 0, num_coupled = 0, stream_map = [0, 0, 0, 0, 0, 0, 0, 0]\<rparr>"

definition blank_header :: OpusHeader where
  \<comment> \<open>the out-parameter before a parse: every stream map entry holds 9\<close>
  "blank_header =
     \<lparr>channels = 0, skip_samples = 0, gain_db = 0, channel_mapping = 0,
      num_streams = 0, num_coupled = 0, stream_map = [9, 9, 9, 9, 9, 9, 9, 9]\<rparr>"

definition le16_at :: "buffer \<Rightarrow> nat \<Rightarrow> 16 word" where
  \<comment> \<open>the little-endian 16-bit value of the bytes at \<open>i\<close> and \<open>i + 1\<close>\<close>
  "le16_at data i = ucast (data ! i) OR push_bit 8 (ucast (data ! (i + 1)))"

definition sample_bytes :: "byte \<Rightarrow> byte \<Rightarrow> byte list \<Rightarrow> buffer" where
  \<comment> \<open>a header with channel byte \<open>c\<close>, pre-skip 312, rate 48000, gain -256, mapping byte \<open>m\<close>\<close>
  "sample_bytes c m tail =
     bytes_of_string ''OpusHead'' @ [1, c, 0x38, 0x01, 0x80, 0xBB, 0x00, 0x00, 0x00, 0xFF, m] @ tail"

definition coupled_header :: OpusHeader where
  \<comment> \<open>three channels as two streams, one of them coupled: the invariants hold\<close>
  "coupled_header =
     \<lparr>channels = 3, skip_samples = 312, gain_db = 0xFF00, channel_mapping = 1,
      num_streams = 2, num_coupled = 1, stream_map = [0, 1, 2, 0, 0, 0, 0, 0]\<rparr>"

definition write_csd ::
  "buffer \<Rightarrow> int \<Rightarrow> byte list \<Rightarrow> 64 word \<Rightarrow> (int \<times> buffer) option" where
  \<comment> \<open>the three \<^verbatim>\<open>memcpy\<close> calls of one trailer record, each followed by its advance of
     \<^verbatim>\<open>headerLen\<close>; \<open>WriteOpusHeaders\<close> does this twice\<close>
  "write_csd out headerLen marker samples =
     do {
       let length = AOPUS_LENGTH;
       out \<leftarrow> memcpy out (nat headerLen) marker AOPUS_MARKER_SIZE;
       let headerLen = headerLen + int AOPUS_MARKER_SIZE;
       out \<leftarrow> memcpy out (nat headerLen) (bytes_of_u64 length) AOPUS_LENGTH_SIZE;
       let headerLen = headerLen + int AOPUS_LENGTH_SIZE;
       out \<leftarrow> memcpy out (nat headerLen) (bytes_of_u64 samples) AOPUS_CSD_SIZE;
       let headerLen = headerLen + int AOPUS_CSD_SIZE;
       Some (headerLen, out)
     }"

definition csd_record :: "byte list \<Rightarrow> 64 word \<Rightarrow> byte list" where
  \<comment> \<open>one trailer record: marker, length field holding 8, value\<close>
  "csd_record marker v = marker @ bytes_of_u64 AOPUS_LENGTH @ bytes_of_u64 v"

definition no_marker_in_header :: "OpusHeader \<Rightarrow> 32 word \<Rightarrow> bool" where
  \<comment> \<open>the bytes at offsets 10 to 17 (pre-skip, rate, gain) do not spell a marker\<close>
  "no_marker_in_header h rate \<longleftrightarrow>
     (let w = bytes_of_u16 (skip_samples h) @ bytes_of_u32 rate @ bytes_of_u16 (gain_db h)
      in w \<noteq> AOPUS_CSD_CODEC_DELAY_MARKER \<and> w \<noteq> AOPUS_CSD_SEEK_PREROLL_MARKER)"

definition opus_head_written :: "OpusHeader \<Rightarrow> 32 word \<Rightarrow> byte list" where
  \<comment> \<open>the bytes the writer returns as the header: for more than two channels the mapping
     tail and the pad byte are part of them\<close>
  "opus_head_written h rate =
     (if channels h \<le> 2 then opus_head_fixed h rate @ [0]
      else opus_head_fixed h rate @ [1, word_of_int (channels h), 0]
             @ take (nat (channels h)) (kOpusChannelMap ! nat (channels h - 1)) @ [0])"

definition unified_blob :: "OpusHeader \<Rightarrow> 32 word \<Rightarrow> 64 word \<Rightarrow> 64 word \<Rightarrow> byte list" where
  \<comment> \<open>the header followed by the codec-delay record and the seek-pre-roll record\<close>
  "unified_blob h rate delay preroll =
     opus_head_written h rate @ csd_record AOPUS_CSD_CODEC_DELAY_MARKER delay
       @ csd_record AOPUS_CSD_SEEK_PREROLL_MARKER preroll"

definition marker_header :: OpusHeader where
  \<comment> \<open>pre-skip 0x4F41 and gain 0x594C: with the rate 0x44535550 the bytes at offsets 10 to
     17 read AOPUSDLY\<close>
  "marker_header =
     \<lparr>channels = 1, skip_samples = 0x4F41, gain_db = 0x594C, channel_mapping = 0,
      num_streams = 1, num_coupled = 0, stream_map = [0, 1, 0, 0, 0, 0, 0, 0]\<rparr>"

section \<open>Basic facts\<close>

lemmas offsets =
  kMaxChannels_def kOpusHeaderSize_def kOpusHeaderLabelOffset_def kOpusHeaderVersionOffset_def
  kOpusHeaderChannelsOffset_def kOpusHeaderSkipSamplesOffset_def kOpusHeaderSampleRateOffset_def
  kOpusHeaderGainOffset_def kOpusHeaderChannelMappingOffset_def kOpusHeaderNumStreamsOffset_def
  kOpusHeaderNumCoupledStreamsOffset_def kOpusHeaderStreamMapOffset_def
  kMaxChannelsWithDefaultLayout_def

lemmas csd_consts =
  AOPUS_CSD_SIZE_def AOPUS_LENGTH_def AOPUS_MARKER_SIZE_def AOPUS_LENGTH_SIZE_def
  AOPUS_TOTAL_CSD_SIZE_def

declare parse_stream_map.simps [simp del]
declare write_stream_map.simps [simp del]
declare scan_csd.simps [simp del]

lemma list_update_Cons_numeral:
  "(x # xs)[numeral k := v] = x # xs[pred_numeral k := v]"
  by (simp add: numeral_eq_Suc)

lemma replicate_numeral_Cons:
  "replicate (numeral k) x = x # replicate (pred_numeral k) x"
  by (simp add: numeral_eq_Suc)

lemma size_of_int_small: "0 \<le> x \<Longrightarrow> x < 2 ^ 64 \<Longrightarrow> size_of_int x = nat x"
  by (simp add: size_of_int_def size_t_mod_def)

lemma length_opus_head_fixed: "length (opus_head_fixed header rate) = 18"
  by (simp add: opus_head_fixed_def bytes_of_string_def bytes_of_u16_def bytes_of_u32_def)

lemma length_channel_map_row:
  "0 \<le> r \<Longrightarrow> r < 8 \<Longrightarrow> length (kOpusChannelMap ! nat r) = 8"
proof -
  assume "0 \<le> r" "r < 8"
  then have "r = 0 \<or> r = 1 \<or> r = 2 \<or> r = 3 \<or> r = 4 \<or> r = 5 \<or> r = 6 \<or> r = 7"
    by arith
  then show ?thesis
    by (elim disjE) (simp_all add: kOpusChannelMap_def)
qed

lemma length_take_row:
  "0 < c \<Longrightarrow> c \<le> 8 \<Longrightarrow> length (take (nat c) (kOpusChannelMap ! nat (c - 1))) = nat c"
  by (simp add: length_channel_map_row)

subsection \<open>What WriteOpusHeader leaves in the buffer\<close>

lemma memset_zero_19:
  "19 + k \<le> length output \<Longrightarrow>
   memset_zero output (19 + k) =
     Some ([0,0,0,0,0,0,0,0, 0,0,0,0,0,0,0,0, 0,0,0] @ replicate k 0 @ drop (19 + k) output)"
  by (simp add: memset_zero_def replicate_add replicate_numeral_Cons)

lemma memset_zero_split:
  "n + k \<le> length output \<Longrightarrow>
   memset_zero output (n + k) = Some (replicate n 0 @ replicate k 0 @ drop (n + k) output)"
  by (simp add: memset_zero_def replicate_add)

lemma WriteOpusHeader_low:
  assumes ch: "1 \<le> channels header" "channels header \<le> 2"
    and cap: "21 + nat (channels header) \<le> output_size" "output_size \<le> length output"
  shows "WriteOpusHeader header rate output output_size =
           Some (19, opus_head_fixed header rate @ [0]
                       @ replicate (output_size - 19) 0 @ drop output_size output)"
proof -
  define k where "k = output_size - 19"
  have k: "output_size = 19 + k"
    using cap(1) by (simp add: k_def)
  have ts: "size_of_int (int kOpusHeaderStreamMapOffset + channels header)
              = 21 + nat (channels header)"
    using ch by (simp add: size_of_int_small offsets)
  have ms: "memset_zero output output_size =
              Some ([0,0,0,0,0,0,0,0, 0,0,0,0,0,0,0,0, 0,0,0] @ replicate k 0
                      @ drop (19 + k) output)"
    using cap(2) unfolding k by (rule memset_zero_19)
  show ?thesis
    using ch cap(1)
    unfolding WriteOpusHeader_def ts Let_def ms
    apply (simp add: offsets memcpy_def wr_def opus_head_fixed_def bytes_of_string_def
        bytes_of_u16_def bytes_of_u32_def list_update_Cons_numeral)
    apply (simp add: k)
    done
qed

lemma channels_high_cases:
  "2 < (c::int) \<Longrightarrow> c \<le> 8 \<Longrightarrow> c = 3 \<or> c = 4 \<or> c = 5 \<or> c = 6 \<or> c = 7 \<or> c = 8"
  by arith

lemma WriteOpusHeader_high_at:
  assumes c: "channels header = c" "c = 3 \<or> c = 4 \<or> c = 5 \<or> c = 6 \<or> c = 7 \<or> c = 8"
    and cap: "output_size = 21 + nat c + k" "output_size \<le> length output"
  shows "WriteOpusHeader header rate output output_size =
           Some (22 + c, opus_head_fixed header rate @ [1, word_of_int c, 0]
                   @ take (nat c) (kOpusChannelMap ! nat (c - 1))
                   @ replicate k 0 @ drop output_size output)"
proof -
  have ts: "size_of_int (int kOpusHeaderStreamMapOffset + channels header) = 21 + nat c"
    using c by (auto simp add: size_of_int_small offsets)
  have ms: "memset_zero output output_size =
              Some (replicate (21 + nat c) 0 @ replicate k 0 @ drop output_size output)"
    using cap(2) unfolding cap(1) by (rule memset_zero_split)
  show ?thesis
    using c(2) c(1) cap(1)
    unfolding WriteOpusHeader_def ts Let_def ms
    apply -
    apply (elim disjE)
    apply (simp_all add: offsets memcpy_def wr_def opus_head_fixed_def bytes_of_string_def
        bytes_of_u16_def bytes_of_u32_def list_update_Cons_numeral replicate_numeral_Cons
        write_stream_map.simps channel_map_at_def kOpusChannelMap_def)
    done
qed

lemma WriteOpusHeader_high:
  assumes ch: "2 < channels header" "channels header \<le> 8"
    and cap: "21 + nat (channels header) \<le> output_size" "output_size \<le> length output"
  shows "WriteOpusHeader header rate output output_size =
           Some (22 + channels header,
                 opus_head_fixed header rate @ [1, word_of_int (channels header), 0]
                   @ take (nat (channels header)) (kOpusChannelMap ! nat (channels header - 1))
                   @ replicate (output_size - (21 + nat (channels header))) 0
                   @ drop output_size output)"
proof -
  have "output_size = 21 + nat (channels header) + (output_size - (21 + nat (channels header)))"
    using cap(1) by simp
  then show ?thesis
    using WriteOpusHeader_high_at [OF refl channels_high_cases [OF ch] _ cap(2)] by blast
qed

lemma layout_high:
  assumes "length fx = 18" "length row = n"
  shows "(fx @ [a, b, c] @ row @ rest) ! 18 = a"
    and "(fx @ [a, b, c] @ row @ rest) ! 19 = b"
    and "(fx @ [a, b, c] @ row @ rest) ! 20 = c"
    and "take n (drop 21 (fx @ [a, b, c] @ row @ rest)) = row"
    and "length (fx @ [a, b, c] @ row @ rest) = 21 + n + length rest"
  using assms by (simp_all add: nth_append)

subsection \<open>What ParseOpusHeader returns\<close>

lemma parse_stream_map_result:
  "int i \<le> channels h \<Longrightarrow> nat (channels h) \<le> length (stream_map h)
   \<Longrightarrow> 21 + nat (channels h) \<le> length data
   \<Longrightarrow> parse_stream_map data h i =
         Some (h\<lparr>stream_map := take i (stream_map h)
                   @ take (nat (channels h) - i) (drop (21 + i) data)
                   @ drop (nat (channels h)) (stream_map h)\<rparr>)"
proof (induction data h i rule: parse_stream_map.induct)
  case (1 data header i)
  let ?n = "nat (channels header)"
  let ?sm = "stream_map header"
  show ?case
  proof (cases "int i < channels header")
    case False
    with "1.prems" have "i = ?n" by simp
    then have "take i ?sm @ take (?n - i) (drop (21 + i) data) @ drop ?n ?sm = ?sm"
      by simp
    then show ?thesis
      using False by (subst parse_stream_map.simps) simp
  next
    case True
    then have i: "i < ?n" by simp
    let ?b = "data ! (21 + i)"
    let ?m = "?sm[i := ?b]"
    have rd: "rd data (kOpusHeaderStreamMapOffset + i) = Some ?b"
      using i "1.prems"(3) by (simp add: rd_def offsets)
    have wr: "wr ?sm i ?b = Some ?m"
      using i "1.prems"(2) by (simp add: wr_def)
    have ih: "parse_stream_map data (header\<lparr>stream_map := ?m\<rparr>) (i + 1) =
                Some (header\<lparr>stream_map := take (i + 1) ?m
                   @ take (?n - (i + 1)) (drop (21 + (i + 1)) data) @ drop ?n ?m\<rparr>)"
      using "1.IH" [OF True rd wr] True "1.prems" by simp
    have a: "take (Suc i) ?m = take i ?sm @ [?b]"
      using i "1.prems"(2) by (simp add: take_Suc_conv_app_nth)
    have b: "drop ?n ?m = drop ?n ?sm"
      using i by simp
    have c: "take (?n - i) (drop (21 + i) data) = ?b # take (?n - (i + 1)) (drop (21 + (i + 1)) data)"
      using i "1.prems"(3)
      by (metis Cons_nth_drop_Suc Suc_diff_Suc Suc_eq_plus1 add_Suc_right add_less_cancel_left less_le_trans take_Suc_Cons)
    show ?thesis
      apply (subst parse_stream_map.simps)
      using True ih apply (simp add: rd wr a b c del: take_Suc_Cons)
      done
  qed
qed

lemma ReadLE16_in_bounds:
  "unat (off + 1) < data_size \<Longrightarrow> unat off < length data \<Longrightarrow> unat (off + 1) < length data
   \<Longrightarrow> ReadLE16 data data_size off =
         Some (ucast (data ! unat off) OR push_bit 8 (ucast (data ! unat (off + 1))))"
  by (simp add: ReadLE16_def rd_def)

lemma ParseOpusHeader_result_gen:
  assumes sz: "19 \<le> data_size" "19 \<le> length data"
    "data_size \<le> length data \<or> 21 + unat (data ! 9) \<le> length data"
    and sm: "length (stream_map header) = 8"
  shows "ParseOpusHeader data data_size header =
    (let ch = uint (data ! 9);
         h1 = header\<lparr>channels := ch\<rparr>;
         h2 = h1\<lparr>skip_samples := le16_at data 10, gain_db := le16_at data 16,
                  channel_mapping := data ! 18\<rparr>;
         h3 = h2\<lparr>num_streams := data ! 19, num_coupled := data ! 20\<rparr>
     in if ch < 1 \<or> 8 < ch then Some (BadChannelCount, h1)
        else if data ! 18 = 0 then
          if 2 < ch then Some (MissingStreamMap, h2)
          else Some (ParseOK, h2\<lparr>num_streams := 1, num_coupled := (if 1 < ch then 1 else 0),
                                  stream_map := (stream_map header)[0 := 0, 1 := 1]\<rparr>)
        else if data_size < 21 + nat ch then Some (InsufficientStreamMap, h2)
        else if uint (data ! 19) + uint (data ! 20) \<noteq> ch then Some (InconsistentMapping, h3)
        else Some (ParseOK, h3\<lparr>stream_map := take (nat ch) (drop 21 data)
                                     @ drop (nat ch) (stream_map header)\<rparr>))"
proof -
  have r10: "ReadLE16 data data_size 10 = Some (le16_at data 10)"
    using sz by (simp add: ReadLE16_in_bounds offsets le16_at_def)
  have r16: "ReadLE16 data data_size 16 = Some (le16_at data 16)"
    using sz by (simp add: ReadLE16_in_bounds offsets le16_at_def)
  have psm: "parse_stream_map data h 0 =
      Some (h\<lparr>stream_map := take (nat (channels h)) (drop 21 data)
                 @ drop (nat (channels h)) (stream_map h)\<rparr>)"
    if "0 \<le> channels h" "channels h \<le> 8" "stream_map h = stream_map header"
       "21 + nat (channels h) \<le> data_size" "channels h = uint (data ! 9)" for h
  proof -
    have n: "nat (channels h) = unat (data ! 9)"
      using that(5) by simp
    have "21 + nat (channels h) \<le> length data"
      using that(4) sz(3) n by auto
    moreover have "nat (channels h) \<le> length (stream_map h)"
      using that(2,3) sm by simp
    ultimately show ?thesis
      using parse_stream_map_result [of 0 h data] that(1) by simp
  qed
  have ne: "stream_map header \<noteq> []"
    using sm by auto
  have big: "19 < length data \<and> 20 < length data" if "\<not> data_size < 21 + unat (data ! 9)"
    using that sz(3) by auto
  show ?thesis
    using sz(1,2) sm ne
    by (simp add: ParseOpusHeader_def Let_def r10 r16 rd_def wr_def offsets psm big)
qed

lemma ParseOpusHeader_result:
  assumes sz: "19 \<le> data_size" "data_size \<le> length data"
    and sm: "length (stream_map header) = 8"
  shows "ParseOpusHeader data data_size header =
    (let ch = uint (data ! 9);
         h1 = header\<lparr>channels := ch\<rparr>;
         h2 = h1\<lparr>skip_samples := le16_at data 10, gain_db := le16_at data 16,
                  channel_mapping := data ! 18\<rparr>;
         h3 = h2\<lparr>num_streams := data ! 19, num_coupled := data ! 20\<rparr>
     in if ch < 1 \<or> 8 < ch then Some (BadChannelCount, h1)
        else if data ! 18 = 0 then
          if 2 < ch then Some (MissingStreamMap, h2)
          else Some (ParseOK, h2\<lparr>num_streams := 1, num_coupled := (if 1 < ch then 1 else 0),
                                  stream_map := (stream_map header)[0 := 0, 1 := 1]\<rparr>)
        else if data_size < 21 + nat ch then Some (InsufficientStreamMap, h2)
        else if uint (data ! 19) + uint (data ! 20) \<noteq> ch then Some (InconsistentMapping, h3)
        else Some (ParseOK, h3\<lparr>stream_map := take (nat ch) (drop 21 data)
                                     @ drop (nat ch) (stream_map header)\<rparr>))"
  using ParseOpusHeader_result_gen [of data_size data header] sz sm by simp

lemma stream_map_take_drop:
  "21 + n \<le> length data \<Longrightarrow> take n (take n (drop 21 data) @ r) = take n (drop 21 data)"
  "21 + n \<le> length data \<Longrightarrow> drop n (take n (drop 21 data) @ r) = r"
  by simp_all

lemma layout_high_rest:
  assumes "length fx = 18" "length row = n"
  shows "drop (21 + n) (fx @ [a, b, c] @ row @ rest) = rest"
proof -
  have "length (fx @ [a, b, c] @ row) = 21 + n"
    using assms by simp
  then have "drop (21 + n) ((fx @ [a, b, c] @ row) @ rest) = rest"
    by (metis append_eq_conv_conj)
  then show ?thesis
    by simp
qed

lemma le16_join:
  "ucast (ucast (w::16 word) :: 8 word) OR push_bit 8 (ucast (ucast (drop_bit 8 w) :: 8 word)) = w"
  by (rule bit_word_eqI) (auto simp: bit_simps)

lemma opus_head_fixed_reads:
  "(opus_head_fixed h rate @ xs) ! 9 = word_of_int (channels h)"
  "le16_at (opus_head_fixed h rate @ xs) 10 = skip_samples h"
  "le16_at (opus_head_fixed h rate @ xs) 16 = gain_db h"
  by (simp_all add: opus_head_fixed_def bytes_of_string_def bytes_of_u16_def bytes_of_u32_def
      le16_at_def le16_join)

lemma take2_update:
  "2 \<le> length xs \<Longrightarrow> take 2 (xs[0 := a, 1 := b]) = [a, b]"
proof -
  assume "2 \<le> length xs"
  then obtain x y zs where "xs = x # y # zs"
    by (metis Suc_le_length_iff numeral_2_eq_2)
  then show ?thesis
    by (simp add: numeral_2_eq_2)
qed

lemma uint_channel_byte:
  "0 \<le> c \<Longrightarrow> c \<le> 8 \<Longrightarrow> uint (word_of_int c :: byte) = c"
  by (simp add: uint_word_of_int take_bit_int_eq_self)

lemma unat_channel_byte:
  "0 \<le> c \<Longrightarrow> c \<le> 8 \<Longrightarrow> unat (word_of_int c :: byte) = nat c"
  using uint_channel_byte [of c] by (metis nat_uint_eq)

subsection \<open>What WriteOpusHeaders appends and what the scan finds\<close>

lemma length_bytes_of_u64: "length (bytes_of_u64 w) = 8"
  by (simp add: bytes_of_u64_def)

lemma length_markers:
  "length AOPUS_CSD_CODEC_DELAY_MARKER = 8" "length AOPUS_CSD_SEEK_PREROLL_MARKER = 8"
  by (simp_all add: AOPUS_CSD_CODEC_DELAY_MARKER_def AOPUS_CSD_SEEK_PREROLL_MARKER_def
      bytes_of_string_def)

lemma write_csd_result:
  assumes "0 \<le> n" "nat n + 24 \<le> length out" "length marker = 8"
  shows "write_csd out n marker v =
           Some (n + 24, take (nat n) out @ marker @ bytes_of_u64 8 @ bytes_of_u64 v
                           @ drop (nat n + 24) out)"
  using assms
  by (simp add: write_csd_def memcpy_def csd_consts length_bytes_of_u64 nat_add_distrib Let_def
      add.commute)

lemma length_csd_record: "length marker = 8 \<Longrightarrow> length (csd_record marker v) = 24"
  by (simp add: csd_record_def length_bytes_of_u64)

lemma WriteOpusHeaders_records:
  "WriteOpusHeaders minsize header inputSampleRate output outputSize codecDelay seekPreRoll =
     (if outputSize < minsize then Some (- 1, output)
      else do {
        (headerLen, out) \<leftarrow> WriteOpusHeader header inputSampleRate output outputSize;
        if headerLen < 0 then Some (- 1, out)
        else if size_of_int headerLen \<ge> size_sub outputSize (2 * AOPUS_TOTAL_CSD_SIZE)
        then Some (- 1, out)
        else do {
          (headerLen, out) \<leftarrow> write_csd out headerLen AOPUS_CSD_CODEC_DELAY_MARKER codecDelay;
          (headerLen, out) \<leftarrow> write_csd out headerLen AOPUS_CSD_SEEK_PREROLL_MARKER seekPreRoll;
          Some (headerLen, out)
        }
      })"
  by (simp add: WriteOpusHeaders_def write_csd_def Let_def cong: if_cong)

lemma WriteOpusHeaders_result:
  assumes w: "WriteOpusHeader h rate output cap = Some (n, hdr @ rest)"
    and n: "0 \<le> n" "length hdr = nat n" "48 \<le> cap" "minsize \<le> cap" "nat n + 48 < cap"
      "cap \<le> length (hdr @ rest)" "n < 2 ^ 64"
  shows "WriteOpusHeaders minsize h rate output cap delay preroll =
           Some (n + 48, hdr @ csd_record AOPUS_CSD_CODEC_DELAY_MARKER delay
                    @ csd_record AOPUS_CSD_SEEK_PREROLL_MARKER preroll @ drop 48 rest)"
proof -
  have s: "size_sub cap (2 * AOPUS_TOTAL_CSD_SIZE) = cap - 48"
    using n(3) by (simp add: size_sub_def csd_consts)
  have c: "size_of_int n = nat n"
    using n(1,7) by (simp add: size_of_int_small)
  have 1: "write_csd (hdr @ rest) n AOPUS_CSD_CODEC_DELAY_MARKER delay =
             Some (n + 24, hdr @ csd_record AOPUS_CSD_CODEC_DELAY_MARKER delay @ drop 24 rest)"
    using n by (simp add: write_csd_result length_markers csd_record_def csd_consts)
  have 2: "write_csd (hdr @ csd_record AOPUS_CSD_CODEC_DELAY_MARKER delay @ drop 24 rest) (n + 24)
               AOPUS_CSD_SEEK_PREROLL_MARKER preroll =
             Some (n + 48, hdr @ csd_record AOPUS_CSD_CODEC_DELAY_MARKER delay
                    @ csd_record AOPUS_CSD_SEEK_PREROLL_MARKER preroll @ drop 48 rest)"
    using n by (simp add: write_csd_result length_markers length_csd_record nat_add_distrib)
      (simp add: csd_record_def csd_consts)
  show ?thesis
    using n by (simp add: WriteOpusHeaders_records w s c 1 2)
qed

lemma no_marker_window:
  assumes "no_marker_in_header h rate"
  shows "\<not> (ucast (skip_samples h) = (65::byte) \<and> ucast (drop_bit 8 (skip_samples h)) = (79::byte)
            \<and> ucast rate = (80::byte) \<and> ucast (drop_bit 8 rate) = (85::byte)
            \<and> ucast (drop_bit 16 rate) = (83::byte) \<and> ucast (drop_bit 24 rate) = (68::byte)
            \<and> ucast (gain_db h) = (76::byte) \<and> ucast (drop_bit 8 (gain_db h)) = (89::byte))"
    and "\<not> (ucast (skip_samples h) = (65::byte) \<and> ucast (drop_bit 8 (skip_samples h)) = (79::byte)
            \<and> ucast rate = (80::byte) \<and> ucast (drop_bit 8 rate) = (85::byte)
            \<and> ucast (drop_bit 16 rate) = (83::byte) \<and> ucast (drop_bit 24 rate) = (80::byte)
            \<and> ucast (gain_db h) = (82::byte) \<and> ucast (drop_bit 8 (gain_db h)) = (76::byte))"
  using assms
  by (simp_all add: no_marker_in_header_def Let_def bytes_of_string_def bytes_of_u16_def
      bytes_of_u32_def AOPUS_CSD_CODEC_DELAY_MARKER_def AOPUS_CSD_SEEK_PREROLL_MARKER_def)

lemma scan_low:
  assumes nm: "no_marker_in_header h rate" and c: "channels h = 1 \<or> channels h = 2"
  shows "scan_csd (opus_head_fixed h rate @ [0] @ csd_record AOPUS_CSD_CODEC_DELAY_MARKER delay
                    @ csd_record AOPUS_CSD_SEEK_PREROLL_MARKER preroll @ rest) 43 0 v
         = Some (v\<lparr>opusHeadSize := min (opusHeadSize v) 19,
                   codecDelayBuf := Some 35, codecDelaySize := 8\<rparr>)"
  using c
  apply (elim disjE)
   apply (simp_all add: no_marker_window [OF nm] opus_head_fixed_def csd_record_def
      bytes_of_string_def bytes_of_u16_def bytes_of_u32_def bytes_of_u64_def csd_consts
      AOPUS_CSD_CODEC_DELAY_MARKER_def AOPUS_CSD_SEEK_PREROLL_MARKER_def
      scan_csd.simps memcmp_eq_def)
  done

lemma scan_high:
  assumes nm: "no_marker_in_header h rate" and c: "channels h = c"
    "c = 3 \<or> c = 4 \<or> c = 5 \<or> c = 6 \<or> c = 7 \<or> c = 8"
  shows "scan_csd (opus_head_fixed h rate @ [1, word_of_int c, 0]
                    @ take (nat c) (kOpusChannelMap ! nat (c - 1)) @ [0]
                    @ csd_record AOPUS_CSD_CODEC_DELAY_MARKER delay
                    @ csd_record AOPUS_CSD_SEEK_PREROLL_MARKER preroll @ rest)
            (nat (46 + c)) 0 v
         = Some (v\<lparr>opusHeadSize := min (opusHeadSize v) (nat (22 + c)),
                   codecDelayBuf := Some (nat (38 + c)), codecDelaySize := 8\<rparr>)"
  using c(2) c(1)
  apply -
  apply (elim disjE)
   apply (simp_all add: no_marker_window [OF nm] opus_head_fixed_def csd_record_def
      bytes_of_string_def bytes_of_u16_def bytes_of_u32_def bytes_of_u64_def csd_consts
      AOPUS_CSD_CODEC_DELAY_MARKER_def AOPUS_CSD_SEEK_PREROLL_MARKER_def
      scan_csd.simps memcmp_eq_def kOpusChannelMap_def)
  done

lemma split8: "ucast (ucast x :: 8 word) OR push_bit 8 (drop_bit 8 x) = (x :: 64 word)"
proof (rule bit_word_eqI)
  fix n assume "n < LENGTH(64)"
  then show "bit (ucast (ucast x :: 8 word) OR push_bit 8 (drop_bit 8 x)) n = bit x n"
    by (cases "n < 8") (auto simp: bit_simps)
qed

lemma drop_bit_64: "drop_bit 64 (w :: 64 word) = 0"
  by (rule bit_word_eqI) (auto simp: bit_simps dest: bit_imp_le_length)

lemma u64_of_bytes_of_u64: "u64_of_bytes (bytes_of_u64 w) = w"
proof -
  have s: "ucast (ucast (drop_bit k w) :: 8 word) OR push_bit 8 (drop_bit (8 + k) w)
             = drop_bit k w" for k
    using split8 [of "drop_bit k w"] by (simp add: drop_bit_drop_bit add.commute)
  have t: "ucast (ucast (drop_bit 56 w) :: 8 word) OR push_bit 8 0 = drop_bit 56 w"
    using s [of 56] by (simp add: drop_bit_64)
  show ?thesis
    unfolding u64_of_bytes_def bytes_of_u64_def
    apply (simp only: foldr.simps o_apply id_apply)
    apply (simp only: t)
    using s [of 48] s [of 40] s [of 32] s [of 24] s [of 16] s [of 8] s [of 0]
    apply simp
    done
qed

lemma length_opus_head_written:
  "1 \<le> channels h \<Longrightarrow> channels h \<le> 8 \<Longrightarrow>
   length (opus_head_written h rate) = (if channels h \<le> 2 then 19 else 22 + nat (channels h))"
  using length_take_row [of "channels h"]
  by (simp add: opus_head_written_def length_opus_head_fixed del: length_take)

lemma WriteOpusHeader_written:
  assumes ch: "1 \<le> channels h" "channels h \<le> 8"
    and cap: "length (opus_head_written h rate) \<le> cap" "cap \<le> length output"
      "21 + nat (channels h) \<le> cap"
  shows "WriteOpusHeader h rate output cap =
           Some (int (length (opus_head_written h rate)),
                 opus_head_written h rate
                   @ replicate (cap - length (opus_head_written h rate)) 0 @ drop cap output)"
proof (cases "channels h \<le> 2")
  case True
  then show ?thesis
    using ch cap by (simp add: WriteOpusHeader_low length_opus_head_written)
      (simp add: opus_head_written_def)
next
  case False
  have l: "length (opus_head_written h rate) = 22 + nat (channels h)"
    using False ch by (simp add: length_opus_head_written)
  have "cap - (21 + nat (channels h)) = Suc (cap - (22 + nat (channels h)))"
    using cap(1) l by simp
  then show ?thesis
    using False ch cap WriteOpusHeader_high [where header = h and output_size = cap and ?output = "output" and rate = rate]
    by (simp add: l) (simp add: opus_head_written_def)
qed

lemma WriteOpusHeader_overrun:
  assumes "1 \<le> channels h" "channels h \<le> 8" "21 + nat (channels h) \<le> cap"
    "length output < cap"
  shows "WriteOpusHeader h rate output cap = None"
proof -
  have ts: "size_of_int (int kOpusHeaderStreamMapOffset + channels h) = 21 + nat (channels h)"
    using assms(1,2) by (simp add: size_of_int_small offsets)
  show ?thesis
    unfolding WriteOpusHeader_def ts Let_def
    using assms(3,4) by (simp add: memset_zero_def)
qed

lemma WriteOpusHeaders_success:
  assumes ch: "1 \<le> channels h" "channels h \<le> 8"
    and ms: "48 \<le> minsize"
    and ok: "WriteOpusHeaders minsize h rate output cap delay preroll = Some (written, out)"
      "0 \<le> written"
  shows "minsize \<le> cap" "cap \<le> length output"
    "length (opus_head_written h rate) + 48 < cap"
    "WriteOpusHeader h rate output cap =
       Some (int (length (opus_head_written h rate)),
             opus_head_written h rate
               @ replicate (cap - length (opus_head_written h rate)) 0 @ drop cap output)"
    "written = int (length (opus_head_written h rate)) + 48"
    "out = opus_head_written h rate @ csd_record AOPUS_CSD_CODEC_DELAY_MARKER delay
             @ csd_record AOPUS_CSD_SEEK_PREROLL_MARKER preroll
             @ drop 48 (replicate (cap - length (opus_head_written h rate)) 0 @ drop cap output)"
proof -
  let ?hw = "opus_head_written h rate"
  let ?rest = "replicate (cap - length ?hw) (0::byte) @ drop cap output"
  have lhw: "length ?hw \<le> 30" "19 \<le> length ?hw"
    using ch by (auto simp add: length_opus_head_written)
  show a: "minsize \<le> cap"
  proof (rule ccontr)
    assume "\<not> minsize \<le> cap"
    then have "WriteOpusHeaders minsize h rate output cap delay preroll = Some (- 1, output)"
      by (simp add: WriteOpusHeaders_records)
    with ok show False by simp
  qed
  have b: "21 + nat (channels h) \<le> cap"
    using a ms ch by simp
  show c: "cap \<le> length output"
  proof (rule ccontr)
    assume "\<not> cap \<le> length output"
    then have "WriteOpusHeader h rate output cap = None"
      using ch b by (simp add: WriteOpusHeader_overrun)
    then have "WriteOpusHeaders minsize h rate output cap delay preroll = None"
      using a by (simp add: WriteOpusHeaders_records)
    with ok show False by simp
  qed
  have l: "length ?hw \<le> cap"
    using a ms lhw by simp
  show w: "WriteOpusHeader h rate output cap = Some (int (length ?hw), ?hw @ ?rest)"
    using ch l c b by (rule WriteOpusHeader_written)
  have s: "size_sub cap (2 * AOPUS_TOTAL_CSD_SIZE) = cap - 48"
    using a ms by (simp add: size_sub_def csd_consts)
  have n: "size_of_int (int (length ?hw)) = length ?hw"
    using lhw by (simp add: size_of_int_small)
  show d: "length ?hw + 48 < cap"
  proof (rule ccontr)
    assume "\<not> length ?hw + 48 < cap"
    then have "cap - 48 \<le> length ?hw"
      by simp
    then have "WriteOpusHeaders minsize h rate output cap delay preroll = Some (- 1, ?hw @ ?rest)"
      using a by (simp add: WriteOpusHeaders_records w s n)
    with ok show False by simp
  qed
  have r: "WriteOpusHeaders minsize h rate output cap delay preroll =
             Some (int (length ?hw) + 48,
                   ?hw @ csd_record AOPUS_CSD_CODEC_DELAY_MARKER delay
                     @ csd_record AOPUS_CSD_SEEK_PREROLL_MARKER preroll @ drop 48 ?rest)"
    using w
  proof (rule WriteOpusHeaders_result)
    show "0 \<le> int (length ?hw)" by simp
    show "length ?hw = nat (int (length ?hw))" by simp
    show "48 \<le> cap" using a ms by simp
    show "minsize \<le> cap" by (rule a)
    show "nat (int (length ?hw)) + 48 < cap" using d by simp
    show "cap \<le> length (?hw @ ?rest)" using l c by simp
    show "int (length ?hw) < 2 ^ 64" using lhw by simp
  qed
  from r ok show "written = int (length ?hw) + 48" by simp
  from r ok show "out = ?hw @ csd_record AOPUS_CSD_CODEC_DELAY_MARKER delay
             @ csd_record AOPUS_CSD_SEEK_PREROLL_MARKER preroll @ drop 48 ?rest"
    by simp
qed

lemma scan_written:
  assumes ch: "1 \<le> channels h" "channels h \<le> 8"
    and nm: "no_marker_in_header h rate"
  shows "scan_csd (opus_head_written h rate @ csd_record AOPUS_CSD_CODEC_DELAY_MARKER delay
                    @ csd_record AOPUS_CSD_SEEK_PREROLL_MARKER preroll @ rest)
            (length (opus_head_written h rate) + 24) 0 v
         = Some (v\<lparr>opusHeadSize := min (opusHeadSize v) (length (opus_head_written h rate)),
                   codecDelayBuf := Some (length (opus_head_written h rate) + 16),
                   codecDelaySize := 8\<rparr>)"
proof (cases "channels h \<le> 2")
  case True
  then have "channels h = 1 \<or> channels h = 2"
    using ch by arith
  from scan_low [OF nm this, of delay preroll rest v] True ch show ?thesis
    by (simp add: length_opus_head_written) (simp add: opus_head_written_def)
next
  case False
  then have c: "channels h = 3 \<or> channels h = 4 \<or> channels h = 5 \<or> channels h = 6
      \<or> channels h = 7 \<or> channels h = 8"
    using ch by arith
  have n: "nat (46 + channels h) = 46 + nat (channels h)"
    "nat (22 + channels h) = 22 + nat (channels h)"
    "nat (38 + channels h) = 38 + nat (channels h)"
    using ch by simp_all
  from scan_high [OF nm refl c, of delay preroll rest v] False ch show ?thesis
    by (simp add: length_opus_head_written n) (simp add: opus_head_written_def)
qed

lemma csd_layout_views:
  assumes "length marker = 8"
  shows "take (length hdr) (hdr @ csd_record marker d @ after) = hdr"
    and "take 8 (drop (length hdr + 16) (hdr @ csd_record marker d @ after)) = bytes_of_u64 d"
  using assms by (simp_all add: csd_record_def length_bytes_of_u64)

section \<open>The claims\<close>

text \<open>
  In every theorem below \<open>output_size \<le> length output\<close> (or \<open>data_size \<le> length data\<close>)
  says that the caller passes a buffer that really holds the bytes it announces, and
  \<open>1 \<le> channels header\<close>, \<open>channels header \<le> 8\<close> is the invariant of the data model.
\<close>

subsection \<open>C1\<close>

text \<open>
  C1 as stated fails. The writer never looks at \<open>channel_mapping\<close>, \<open>num_streams\<close>,
  \<open>num_coupled\<close> or \<open>stream_map\<close> of the record: for more than two channels it always
  writes family 1, \<open>channels\<close> streams, no coupled stream and the row of the table. A
  record of three channels in two streams, one coupled, with the map 0, 1, 2 satisfies the
  invariants; written and parsed back it has three streams, no coupled stream and the
  map 0, 2, 1.
\<close>

theorem round_trip_counterexample:
  "channels coupled_header = 3 \<and> channel_mapping coupled_header \<noteq> 0
   \<and> uint (num_streams coupled_header) + uint (num_coupled coupled_header)
       = channels coupled_header
   \<and> WriteOpusHeader coupled_header 48000 (replicate 25 0) 25
       = Some (25, sample_bytes 3 1 [3, 0, 0, 2, 1, 0])
   \<and> ParseOpusHeader (sample_bytes 3 1 [3, 0, 0, 2, 1, 0]) 25 blank_header
       = Some (ParseOK, \<lparr>channels = 3, skip_samples = 312, gain_db = 0xFF00,
                 channel_mapping = 1, num_streams = 3, num_coupled = 0,
                 stream_map = [0, 2, 1, 9, 9, 9, 9, 9]\<rparr>)
   \<and> num_streams coupled_header = 2 \<and> num_coupled coupled_header = 1
   \<and> take 3 (stream_map coupled_header) = [0, 1, 2]"
  by code_simp

text \<open>
  C1, amended. For every header with 1 to 8 channels, every sample rate and every
  capacity of at least \<open>21 + channels\<close>, parsing the buffer \<open>WriteOpusHeader\<close> has
  written, with the returned count as the length, succeeds and reproduces \<open>channels\<close>,
  \<open>skip_samples\<close> and \<open>gain_db\<close>. The other four fields do not come from the record:
  for one or two channels the parse gives mapping 0, one stream, one coupled stream
  exactly for two channels, and a map starting 0, 1; for more channels it gives mapping 1,
  \<open>channels\<close> streams, no coupled stream and the row of the table. (So they are
  reproduced exactly for the records that already hold these values.)
\<close>

theorem write_then_parse:
  assumes ch: "1 \<le> channels h" "channels h \<le> 8"
    and cap: "21 + nat (channels h) \<le> output_size" "output_size \<le> length output"
    and sm: "length (stream_map h0) = 8"
  shows "\<exists>n out hp. WriteOpusHeader h rate output output_size = Some (n, out) \<and> 0 \<le> n
           \<and> ParseOpusHeader out (nat n) h0 = Some (ParseOK, hp)
           \<and> channels hp = channels h \<and> skip_samples hp = skip_samples h
           \<and> gain_db hp = gain_db h
           \<and> (if channels h \<le> 2
               then channel_mapping hp = 0 \<and> num_streams hp = 1
                  \<and> num_coupled hp = (if channels h > 1 then 1 else 0)
                  \<and> take 2 (stream_map hp) = [0, 1]
               else channel_mapping hp = 1 \<and> uint (num_streams hp) = channels h
                  \<and> num_coupled hp = 0
                  \<and> take (nat (channels h)) (stream_map hp)
                      = take (nat (channels h)) (kOpusChannelMap ! nat (channels h - 1)))"
proof (cases "channels h \<le> 2")
  case True
  define fx where "fx = opus_head_fixed h rate"
  define rest where "rest = replicate (output_size - 19) (0::byte) @ drop output_size output"
  define out where "out = fx @ [0] @ rest"
  have fx: "length fx = 18"
    by (simp add: fx_def length_opus_head_fixed)
  have w: "WriteOpusHeader h rate output output_size = Some (19, out)"
    using True ch cap by (simp add: WriteOpusHeader_low out_def fx_def rest_def)
  have len: "length out = length output"
    using cap by (simp add: out_def fx rest_def)
  have o9: "out ! 9 = word_of_int (channels h)"
    and o10: "le16_at out 10 = skip_samples h" and o16: "le16_at out 16 = gain_db h"
    unfolding out_def fx_def by (rule opus_head_fixed_reads)+
  have o18: "out ! 18 = 0"
    by (simp add: out_def nth_append fx)
  have u: "uint (word_of_int (channels h) :: byte) = channels h"
    using ch by (intro uint_channel_byte) simp_all
  have p: "ParseOpusHeader out 19 h0 =
             Some (ParseOK, h0\<lparr>channels := channels h, skip_samples := skip_samples h,
                   gain_db := gain_db h, channel_mapping := 0, num_streams := 1,
                   num_coupled := (if 1 < channels h then 1 else 0),
                   stream_map := (stream_map h0)[0 := 0, 1 := 1]\<rparr>)"
    using ParseOpusHeader_result_gen [of 19 out h0] True ch cap sm
    by (simp add: len o9 o10 o16 o18 u Let_def)
  have t: "take 2 ((stream_map h0)[0 := 0, 1 := 1]) = [0, 1]"
    using sm by (intro take2_update) simp
  show ?thesis
    using True t by (simp add: w p)
next
  case False
  define fx where "fx = opus_head_fixed h rate"
  define row where "row = take (nat (channels h)) (kOpusChannelMap ! nat (channels h - 1))"
  define rest where
    "rest = replicate (output_size - (21 + nat (channels h))) (0::byte) @ drop output_size output"
  define out where "out = fx @ [1, word_of_int (channels h), 0] @ row @ rest"
  have fx: "length fx = 18"
    by (simp add: fx_def length_opus_head_fixed)
  have row: "length row = nat (channels h)"
    unfolding row_def using False ch(2) by (intro length_take_row) simp_all
  have w: "WriteOpusHeader h rate output output_size = Some (22 + channels h, out)"
    using False ch cap by (simp add: WriteOpusHeader_high out_def fx_def row_def rest_def)
  have len: "length out = length output"
    using cap by (simp add: out_def fx row rest_def)
  have o9: "out ! 9 = word_of_int (channels h)"
    and o10: "le16_at out 10 = skip_samples h" and o16: "le16_at out 16 = gain_db h"
    unfolding out_def fx_def by (rule opus_head_fixed_reads)+
  note lay = layout_high(1-4) [OF fx row, of 1 "word_of_int (channels h)" 0 rest,
      folded out_def]
  have u: "uint (word_of_int (channels h) :: byte) = channels h"
    using ch by (intro uint_channel_byte) simp_all
  have u': "unat (word_of_int (channels h) :: byte) = nat (channels h)"
    using ch by (intro unat_channel_byte) simp_all
  have p: "ParseOpusHeader out (nat (22 + channels h)) h0 =
             Some (ParseOK, h0\<lparr>channels := channels h, skip_samples := skip_samples h,
                   gain_db := gain_db h, channel_mapping := 1,
                   num_streams := word_of_int (channels h), num_coupled := 0,
                   stream_map := row @ drop (nat (channels h)) (stream_map h0)\<rparr>)"
    using ParseOpusHeader_result_gen [of "nat (22 + channels h)" out h0] False ch cap sm
    by (simp add: len o9 o10 o16 lay u u' Let_def)
  show ?thesis
    using False ch by (simp add: w p u row row_def [symmetric])
qed

theorem write_then_parse_witness:
  "(\<exists>n out hp. WriteOpusHeader (sample_header 6) 48000 (replicate 30 0xAA) 27 = Some (n, out)
       \<and> ParseOpusHeader out (nat n) blank_header = Some (ParseOK, hp)
       \<and> channels hp = 6 \<and> skip_samples hp = 312 \<and> gain_db hp = 0xFF00
       \<and> channel_mapping hp = 1 \<and> uint (num_streams hp) = 6 \<and> num_coupled hp = 0
       \<and> take 6 (stream_map hp) = [0, 4, 1, 2, 3, 5])
   \<and> (\<exists>n out hp. WriteOpusHeader (sample_header 2) 48000 (replicate 30 0xAA) 23 = Some (n, out)
       \<and> ParseOpusHeader out (nat n) blank_header = Some (ParseOK, hp)
       \<and> channels hp = 2 \<and> skip_samples hp = 312 \<and> gain_db hp = 0xFF00
       \<and> channel_mapping hp = 0 \<and> num_streams hp = 1 \<and> num_coupled hp = 1
       \<and> take 2 (stream_map hp) = [0, 1])"
  using write_then_parse [where h = "sample_header 6" and rate = 48000
      and ?output = "replicate 30 0xAA" and output_size = 27 and ?h0.0 = blank_header]
    write_then_parse [where h = "sample_header 2" and rate = 48000
      and ?output = "replicate 30 0xAA" and output_size = 23 and ?h0.0 = blank_header]
  by (auto simp add: sample_header_def blank_header_def kOpusChannelMap_def)

subsection \<open>C2\<close>

text \<open>
  C2 as stated fails. The splitter searches the whole buffer for the marker strings, and
  the pre-skip, the sample rate and the gain, which the caller chooses, lie next to each
  other at offsets 10 to 17. With pre-skip 0x4F41, rate 0x44535550 and gain 0x594C these
  eight bytes read AOPUSDLY: the head view of the blob \<open>WriteOpusHeaders\<close> returns then
  ends at offset 10, not at 19, and the codec-delay view decodes to 2137, not to the
  delay 5 that was written. (The threshold is taken as 67, the smallest blob:
  19 header bytes and two records.)
\<close>

theorem unified_split_counterexample:
  "WriteOpusHeaders 67 marker_header 0x44535550 (replicate 68 0) 68 5 6
     = Some (67, unified_blob marker_header 0x44535550 5 6 @ [0])
   \<and> WriteOpusHeader marker_header 0x44535550 (replicate 68 0) 68
     = Some (19, opus_head_written marker_header 0x44535550 @ replicate 49 0)
   \<and> GetOpusHeaderBuffers 67 (unified_blob marker_header 0x44535550 5 6 @ [0]) 67
     = Some \<lparr>opusHeadBuf = Some 0, opusHeadSize = 10,
              codecDelayBuf = Some 26, codecDelaySize = 8,
              seekPreRollBuf = None, seekPreRollSize = 0\<rparr>
   \<and> u64_of_bytes (view_bytes (unified_blob marker_header 0x44535550 5 6 @ [0]) (Some 26) 8)
     = 2137"
  by code_simp

text \<open>
  C2, amended. Let the threshold \<^verbatim>\<open>AOPUS_UNIFIED_CSD_MINSIZE\<close> be at least 48 and at most
  67, let the header have 1 to 8 channels, and let the eight bytes of pre-skip, rate and
  gain spell neither marker. Then, whenever \<open>WriteOpusHeaders\<close> succeeds,
  \<open>GetOpusHeaderBuffers\<close> on the buffer it has written, with the returned total as the
  length, gives a head view that starts at the buffer, has the length \<open>WriteOpusHeader\<close>
  returns and holds the bytes \<open>WriteOpusHeader\<close> writes, and a codec-delay view of 8 bytes
  that is not absent and decodes to \<open>codecDelay\<close>. Nothing is said about the seek-pre-roll
  view.
\<close>

theorem unified_csd_split:
  assumes ch: "1 \<le> channels h" "channels h \<le> 8"
    and nm: "no_marker_in_header h rate"
    and ms: "48 \<le> minsize" "minsize \<le> 67"
    and ok: "WriteOpusHeaders minsize h rate output cap delay preroll = Some (written, out)"
      "0 \<le> written"
  shows "\<exists>n out0 v. WriteOpusHeader h rate output cap = Some (n, out0) \<and> 0 \<le> n
           \<and> written = n + 48
           \<and> GetOpusHeaderBuffers minsize out (nat written) = Some v
           \<and> opusHeadBuf v = Some 0 \<and> opusHeadSize v = nat n
           \<and> view_bytes out (opusHeadBuf v) (opusHeadSize v) = take (nat n) out0
           \<and> codecDelayBuf v \<noteq> None \<and> codecDelaySize v = 8
           \<and> u64_of_bytes (view_bytes out (codecDelayBuf v) (codecDelaySize v)) = delay"
proof -
  define hw where "hw = opus_head_written h rate"
  define rest0 where "rest0 = replicate (cap - length hw) (0::byte) @ drop cap output"
  define after where
    "after = csd_record AOPUS_CSD_SEEK_PREROLL_MARKER preroll @ drop 48 rest0"
  note s = WriteOpusHeaders_success [OF ch ms(1) ok, folded hw_def, folded rest0_def]
  have lhw: "19 \<le> length hw"
    using ch by (auto simp add: hw_def length_opus_head_written)
  have out: "out = hw @ csd_record AOPUS_CSD_CODEC_DELAY_MARKER delay @ after"
    using s(6) by (simp add: after_def)
  have w: "WriteOpusHeader h rate output cap = Some (int (length hw), hw @ rest0)"
    by (rule s(4))
  have wr: "nat written = length hw + 48"
    using s(5) by simp
  have sub: "size_sub (length hw + 48) AOPUS_TOTAL_CSD_SIZE = length hw + 24"
    by (simp add: size_sub_def csd_consts)
  define v where
    "v = \<lparr>opusHeadBuf = Some 0, opusHeadSize = length hw,
           codecDelayBuf = Some (length hw + 16), codecDelaySize = 8,
           seekPreRollBuf = None, seekPreRollSize = 0\<rparr>"
  have sc: "scan_csd (hw @ csd_record AOPUS_CSD_CODEC_DELAY_MARKER delay @ after)
              (length hw + 24) 0 v0
            = Some (v0\<lparr>opusHeadSize := min (opusHeadSize v0) (length hw),
                      codecDelayBuf := Some (length hw + 16), codecDelaySize := 8\<rparr>)" for v0
    using scan_written [OF ch nm, of delay preroll "drop 48 rest0" v0]
    by (simp add: hw_def after_def)
  have g: "GetOpusHeaderBuffers minsize out (nat written) = Some v"
    using lhw ms(2)
    by (simp add: GetOpusHeaderBuffers_def wr sub Let_def out sc v_def)
  have v1: "view_bytes out (opusHeadBuf v) (opusHeadSize v) = take (length hw) (hw @ rest0)"
    using csd_layout_views(1) [OF length_markers(1), of hw delay after]
    by (simp add: view_bytes_def v_def out)
  have v2: "view_bytes out (codecDelayBuf v) (codecDelaySize v) = bytes_of_u64 delay"
    using csd_layout_views(2) [OF length_markers(1), of hw delay after]
    by (simp add: view_bytes_def v_def out)
  show ?thesis
    using w g v1 v2 s(5) by (simp add: u64_of_bytes_of_u64 v_def)
qed

theorem unified_csd_split_witness:
  "no_marker_in_header (sample_header 2) 48000
   \<and> WriteOpusHeaders 67 (sample_header 2) 48000 (replicate 80 0xAA) 80 5 6
       = Some (67, unified_blob (sample_header 2) 48000 5 6 @ replicate 13 0)
   \<and> (\<exists>n out0 v. WriteOpusHeader (sample_header 2) 48000 (replicate 80 0xAA) 80 = Some (n, out0)
         \<and> GetOpusHeaderBuffers 67 (unified_blob (sample_header 2) 48000 5 6 @ replicate 13 0) 67
             = Some v
         \<and> opusHeadBuf v = Some 0 \<and> opusHeadSize v = 19 \<and> n = 19
         \<and> view_bytes (unified_blob (sample_header 2) 48000 5 6 @ replicate 13 0)
               (opusHeadBuf v) (opusHeadSize v) = take 19 out0
         \<and> codecDelayBuf v \<noteq> None \<and> codecDelaySize v = 8
         \<and> u64_of_bytes (view_bytes (unified_blob (sample_header 2) 48000 5 6 @ replicate 13 0)
               (codecDelayBuf v) (codecDelaySize v)) = 5)"
proof -
  have nm: "no_marker_in_header (sample_header 2) 48000"
    by code_simp
  have ok: "WriteOpusHeaders 67 (sample_header 2) 48000 (replicate 80 0xAA) 80 5 6
       = Some (67, unified_blob (sample_header 2) 48000 5 6 @ replicate 13 0)"
    by code_simp
  have c: "1 \<le> channels (sample_header 2)" "channels (sample_header 2) \<le> 8"
    by (simp_all add: sample_header_def)
  from unified_csd_split [OF c nm _ _ ok] nm ok show ?thesis
    by auto
qed

subsection \<open>C3\<close>

text \<open>
  C3. The scan is meant to reach offset \<open>length - 24\<close>, so that a record that ends with
  the buffer is found. The loop runs while \<open>i < data_size - 24\<close>: the offset
  \<open>data_size - 24\<close> itself is never compared. The 67 bytes that \<open>WriteOpusHeaders\<close>
  produces for a mono header hold the seek-pre-roll marker at offset 43 = 67 - 24; the
  splitter, given these 67 bytes, reports no seek-pre-roll view. With one more byte
  behind the record the same record is found.
\<close>

theorem scan_misses_last_record:
  "length (unified_blob (sample_header 1) 48000 5 6) = 67
   \<and> memcmp_eq (unified_blob (sample_header 1) 48000 5 6) (67 - 24)
        AOPUS_CSD_SEEK_PREROLL_MARKER AOPUS_MARKER_SIZE = Some True
   \<and> GetOpusHeaderBuffers 67 (unified_blob (sample_header 1) 48000 5 6) 67
     = Some \<lparr>opusHeadBuf = Some 0, opusHeadSize = 19,
              codecDelayBuf = Some 35, codecDelaySize = 8,
              seekPreRollBuf = None, seekPreRollSize = 0\<rparr>
   \<and> GetOpusHeaderBuffers 67 (unified_blob (sample_header 1) 48000 5 6 @ [0]) 68
     = Some \<lparr>opusHeadBuf = Some 0, opusHeadSize = 19,
              codecDelayBuf = Some 35, codecDelaySize = 8,
              seekPreRollBuf = Some 59, seekPreRollSize = 8\<rparr>"
  by code_simp

subsection \<open>C4\<close>

text \<open>
  C4. Writer postcondition: for a header with more than two channels (at most 8, the
  rows the table has) and a capacity of at least \<open>21 + channels\<close>, \<open>WriteOpusHeader\<close>
  writes mapping family 1 at offset 18, \<open>channels\<close> at offset 19 (the number of streams),
  0 at offset 20 (the number of coupled streams) and, from offset 21 on, the first
  \<open>channels\<close> entries of row \<open>channels - 1\<close> of \<open>kOpusChannelMap\<close>, and returns
  \<open>21 + channels + 1\<close>; for one or two channels it writes mapping family 0 at offset 18
  and returns 19.
\<close>

theorem writer_postcondition:
  assumes "1 \<le> channels header" "channels header \<le> 8"
    and "21 + nat (channels header) \<le> output_size" "output_size \<le> length output"
  shows "\<exists>out. WriteOpusHeader header rate output output_size =
                 Some (if channels header > 2 then 21 + channels header + 1 else 19, out)
           \<and> length out = length output
           \<and> (if channels header > 2
              then out ! 18 = 1 \<and> out ! 19 = word_of_int (channels header) \<and> out ! 20 = 0
                 \<and> take (nat (channels header)) (drop 21 out)
                     = take (nat (channels header)) (kOpusChannelMap ! nat (channels header - 1))
              else out ! 18 = 0)"
proof (cases "channels header > 2")
  case True
  define fx where "fx = opus_head_fixed header rate"
  define row where
    "row = take (nat (channels header)) (kOpusChannelMap ! nat (channels header - 1))"
  define rest where
    "rest = replicate (output_size - (21 + nat (channels header))) (0::byte)
              @ drop output_size output"
  have fx: "length fx = 18"
    by (simp add: fx_def length_opus_head_fixed)
  have row: "length row = nat (channels header)"
    unfolding row_def using True assms(2) by (intro length_take_row) simp_all
  have rest: "length rest = length output - (21 + nat (channels header))"
    using assms(3,4) by (simp add: rest_def)
  have out: "WriteOpusHeader header rate output output_size =
               Some (22 + channels header,
                     fx @ [1, word_of_int (channels header), 0] @ row @ rest)"
    using True assms(2-4) by (simp add: WriteOpusHeader_high fx_def row_def rest_def)
  have "length (fx @ [1, word_of_int (channels header), 0] @ row @ rest) = length output"
    using assms(3,4) by (simp add: fx row rest)
  with True show ?thesis
    unfolding out row_def [symmetric]
    using layout_high(1-4) [OF fx row, of 1 "word_of_int (channels header)" 0 rest]
    by simp
next
  case False
  then show ?thesis
    using assms
    by (simp add: WriteOpusHeader_low length_opus_head_fixed nth_append)
qed

theorem writer_postcondition_witness:
  "(\<exists>out. WriteOpusHeader (sample_header 6) 48000 (replicate 30 0xAA) 27 = Some (28, out)
        \<and> out ! 18 = 1 \<and> out ! 19 = 6 \<and> out ! 20 = 0
        \<and> take 6 (drop 21 out) = [0, 4, 1, 2, 3, 5])
   \<and> (\<exists>out. WriteOpusHeader (sample_header 8) 48000 (replicate 30 0xAA) 29 = Some (30, out)
        \<and> take 8 (drop 21 out) = [0, 6, 1, 2, 3, 4, 5, 7])
   \<and> (\<exists>out. WriteOpusHeader (sample_header 2) 48000 (replicate 30 0xAA) 23 = Some (19, out)
        \<and> out ! 18 = 0)"
  using writer_postcondition [of "sample_header 6" 27 "replicate 30 0xAA" 48000]
    writer_postcondition [of "sample_header 8" 29 "replicate 30 0xAA" 48000]
    writer_postcondition [of "sample_header 2" 23 "replicate 30 0xAA" 48000]
  by (auto simp add: sample_header_def kOpusChannelMap_def)

subsection \<open>C5\<close>

text \<open>
  C5. Bounds safety: for every buffer and every length below 19, \<open>ParseOpusHeader\<close>
  fails and reads nothing; for every header and every capacity below \<open>21 + channels\<close>,
  \<open>WriteOpusHeader\<close> fails and writes nothing. The buffers are arbitrary, also empty
  or exactly as long as the size says, and any access outside them would make the result
  \<open>None\<close>: the parser returns the header as it got it and the writer returns the
  buffer as it got it. \<open>channels h \<le> 2147483647\<close> says that the field is a C \<^verbatim>\<open>int\<close>.
\<close>

theorem bounds_safety:
  "(data_size < 19 \<longrightarrow> ParseOpusHeader data data_size header = Some (HeaderTooSmall, header))
   \<and> (channels h \<le> 2147483647 \<and> int output_size < 21 + channels h
        \<longrightarrow> WriteOpusHeader h rate output output_size = Some (- 1, output))"
proof (intro conjI impI)
  assume "data_size < 19"
  then show "ParseOpusHeader data data_size header = Some (HeaderTooSmall, header)"
    by (simp add: ParseOpusHeader_def offsets)
next
  assume a: "channels h \<le> 2147483647 \<and> int output_size < 21 + channels h"
  then have "size_of_int (int kOpusHeaderStreamMapOffset + channels h) = nat (21 + channels h)"
    by (simp add: offsets size_of_int_small)
  moreover have "output_size < nat (21 + channels h)"
    using a by linarith
  ultimately show "WriteOpusHeader h rate output output_size = Some (- 1, output)"
    by (simp add: WriteOpusHeader_def)
qed

theorem bounds_safety_witness:
  "ParseOpusHeader (sample_bytes 2 0 []) 18 blank_header = Some (HeaderTooSmall, blank_header)
   \<and> ParseOpusHeader [] 0 blank_header = Some (HeaderTooSmall, blank_header)
   \<and> WriteOpusHeader (sample_header 2) 48000 (replicate 22 0xAA) 22
        = Some (- 1, replicate 22 0xAA)
   \<and> WriteOpusHeader (sample_header 8) 48000 [] 0 = Some (- 1, [])"
  using bounds_safety [where data_size = 18 and data = "sample_bytes 2 0 []"
      and header = blank_header and h = "sample_header 2" and output_size = 22
      and rate = 48000 and ?output = "replicate 22 0xAA"]
    bounds_safety [where data_size = 0 and data = "[]"
      and header = blank_header and h = "sample_header 8" and output_size = 0
      and rate = 48000 and ?output = "[]"]
  by (simp add: sample_header_def)

subsection \<open>C6\<close>

text \<open>
  C6. The room check of \<open>WriteOpusHeaders\<close> is \<open>headerLen \<ge> outputSize - 48\<close>: it also
  rejects the capacity that is exactly \<open>headerLen + 48\<close>, where both records fit. For a
  stereo header (19 header bytes) and a capacity of 67 the header is written and the call
  returns -1; with a capacity of 68 it returns 67 and appends the codec-delay record and
  then the seek-pre-roll record.
\<close>

theorem unified_writer_exact_room:
  "WriteOpusHeader (sample_header 2) 48000 (replicate 67 0xAA) 67
     = Some (19, opus_head_written (sample_header 2) 48000 @ replicate 48 0)
   \<and> WriteOpusHeaders 67 (sample_header 2) 48000 (replicate 67 0xAA) 67 5 6
     = Some (- 1, opus_head_written (sample_header 2) 48000 @ replicate 48 0)
   \<and> WriteOpusHeaders 67 (sample_header 2) 48000 (replicate 68 0xAA) 68 5 6
     = Some (67, unified_blob (sample_header 2) 48000 5 6 @ [0])"
  by code_simp

subsection \<open>C7\<close>

text \<open>
  C7. Channel validation: on a buffer of at least 19 bytes \<open>ParseOpusHeader\<close> fails with
  the bad-channel-count cause when the byte at offset 9 is 0 or greater than 8, and for
  every value from 1 to 8 it returns, with a status that is not that cause.
\<close>

theorem channel_validation:
  assumes "19 \<le> data_size" "data_size \<le> length data" "length (stream_map header) = 8"
  shows "(data ! 9 = 0 \<or> 8 < data ! 9
            \<longrightarrow> (\<exists>h'. ParseOpusHeader data data_size header = Some (BadChannelCount, h')))
       \<and> (1 \<le> data ! 9 \<and> data ! 9 \<le> 8
            \<longrightarrow> (\<exists>s h'. ParseOpusHeader data data_size header = Some (s, h')
                        \<and> s \<noteq> BadChannelCount))"
  by (auto simp add: ParseOpusHeader_result [OF assms] Let_def word_less_def word_le_def)

theorem channel_validation_witness:
  "(\<exists>h'. ParseOpusHeader (sample_bytes 0 0 []) 19 blank_header = Some (BadChannelCount, h'))
   \<and> (\<exists>h'. ParseOpusHeader (sample_bytes 9 0 []) 19 blank_header = Some (BadChannelCount, h'))
   \<and> (\<exists>s h'. ParseOpusHeader (sample_bytes 1 0 []) 19 blank_header = Some (s, h')
          \<and> s \<noteq> BadChannelCount)
   \<and> (\<exists>s h'. ParseOpusHeader (sample_bytes 8 0 []) 19 blank_header = Some (s, h')
          \<and> s \<noteq> BadChannelCount)"
  using channel_validation [where data = "sample_bytes 0 0 []" and data_size = 19
      and header = blank_header]
    channel_validation [where data = "sample_bytes 9 0 []" and data_size = 19
      and header = blank_header]
    channel_validation [where data = "sample_bytes 1 0 []" and data_size = 19
      and header = blank_header]
    channel_validation [where data = "sample_bytes 8 0 []" and data_size = 19
      and header = blank_header]
  by (simp add: sample_bytes_def bytes_of_string_def blank_header_def)

subsection \<open>C8\<close>

text \<open>
  C8. Mapping path: on a buffer of at least 19 bytes whose byte at offset 18 is not zero,
  \<open>ParseOpusHeader\<close> fails when the length is below \<open>21 + channels\<close>; with a channel
  count from 1 to 8 and enough bytes it fails with the inconsistent-mapping cause when the
  bytes at offsets 19 and 20 do not add up (as integers, without wrap-around) to the
  channel count, and otherwise succeeds: the stream counts are those two bytes and the
  first \<open>channels\<close> entries of the stream map are the bytes from offset 21 on, whatever
  their values; the other entries keep what the out-parameter held.
\<close>

theorem mapping_path:
  assumes "19 \<le> data_size" "data_size \<le> length data" "length (stream_map header) = 8"
    and "data ! 18 \<noteq> 0"
  shows "(data_size < 21 + unat (data ! 9)
            \<longrightarrow> (\<exists>s h'. ParseOpusHeader data data_size header = Some (s, h') \<and> \<not> parse_ok s))
       \<and> (1 \<le> data ! 9 \<and> data ! 9 \<le> 8 \<and> 21 + unat (data ! 9) \<le> data_size
            \<longrightarrow> (if uint (data ! 19) + uint (data ! 20) \<noteq> uint (data ! 9)
                 then \<exists>h'. ParseOpusHeader data data_size header = Some (InconsistentMapping, h')
                 else \<exists>h'. ParseOpusHeader data data_size header = Some (ParseOK, h')
                        \<and> channels h' = uint (data ! 9)
                        \<and> channel_mapping h' = data ! 18
                        \<and> num_streams h' = data ! 19 \<and> num_coupled h' = data ! 20
                        \<and> take (unat (data ! 9)) (stream_map h') = take (unat (data ! 9)) (drop 21 data)
                        \<and> drop (unat (data ! 9)) (stream_map h') = drop (unat (data ! 9)) (stream_map header)))"
proof -
  have n: "21 + unat (data ! 9) \<le> length data" if "21 + unat (data ! 9) \<le> data_size"
    using that assms(2) by simp
  show ?thesis
    using assms(4) stream_map_take_drop [OF n]
    by (auto simp add: ParseOpusHeader_result [OF assms(1-3)] Let_def word_less_def word_le_def
        parse_ok_def simp del: take_append drop_append)
qed

theorem mapping_path_witness:
  "(\<exists>s h'. ParseOpusHeader (sample_bytes 3 1 [2, 1, 7]) 22 blank_header = Some (s, h')
        \<and> \<not> parse_ok s)
   \<and> (\<exists>h'. ParseOpusHeader (sample_bytes 3 1 [3, 1, 7, 200, 0]) 24 blank_header
               = Some (InconsistentMapping, h'))
   \<and> (\<exists>h'. ParseOpusHeader (sample_bytes 1 1 [255, 2, 0]) 22 blank_header
               = Some (InconsistentMapping, h'))
   \<and> (\<exists>h'. ParseOpusHeader (sample_bytes 3 1 [2, 1, 7, 200, 0]) 24 blank_header
               = Some (ParseOK, h')
          \<and> num_streams h' = 2 \<and> num_coupled h' = 1
          \<and> take 3 (stream_map h') = [7, 200, 0]
          \<and> drop 3 (stream_map h') = [9, 9, 9, 9, 9])"
  using mapping_path [where data = "sample_bytes 3 1 [2, 1, 7]" and data_size = 22
      and header = blank_header]
    mapping_path [where data = "sample_bytes 3 1 [3, 1, 7, 200, 0]" and data_size = 24
      and header = blank_header]
    mapping_path [where data = "sample_bytes 1 1 [255, 2, 0]" and data_size = 22
      and header = blank_header]
    mapping_path [where data = "sample_bytes 3 1 [2, 1, 7, 200, 0]" and data_size = 24
      and header = blank_header]
  by (auto simp add: sample_bytes_def bytes_of_string_def blank_header_def)

subsection \<open>C9\<close>

text \<open>
  C9. Lenient 16-bit reads: \<open>ReadLE16\<close> returns 0, without reading, whenever the index of
  the second byte, \<open>read_offset + 1\<close> as the 32-bit addition computes it, is not below the
  length; when both bytes are in bounds it returns the byte at the offset combined with
  the next byte shifted left by 8. \<open>ParseOpusHeader\<close> never fails on account of the two
  fields read this way: on a buffer of at least 19 bytes it returns, and its status is the
  same whatever the bytes at offsets 10, 11, 16 and 17 are.
\<close>

theorem lenient_16bit_reads:
  "(data_size \<le> unat (off + 1) \<longrightarrow> ReadLE16 data data_size off = Some 0)
   \<and> (unat off < data_size \<and> unat (off + 1) < data_size \<and> data_size \<le> length data
        \<longrightarrow> ReadLE16 data data_size off =
              Some (ucast (data ! unat off) OR push_bit 8 (ucast (data ! unat (off + 1)))))
   \<and> (19 \<le> data_size \<and> data_size \<le> length data \<and> length (stream_map header) = 8
        \<longrightarrow> (\<exists>s h'. ParseOpusHeader data data_size header = Some (s, h'))
          \<and> map_option fst (ParseOpusHeader (data[10 := a, 11 := b, 16 := c, 17 := d])
                                data_size header)
              = map_option fst (ParseOpusHeader data data_size header))"
proof (intro conjI impI)
  assume "data_size \<le> unat (off + 1)"
  then show "ReadLE16 data data_size off = Some 0"
    by (simp add: ReadLE16_def)
next
  assume "unat off < data_size \<and> unat (off + 1) < data_size \<and> data_size \<le> length data"
  then show "ReadLE16 data data_size off =
               Some (ucast (data ! unat off) OR push_bit 8 (ucast (data ! unat (off + 1))))"
    by (simp add: ReadLE16_in_bounds)
next
  assume a: "19 \<le> data_size \<and> data_size \<le> length data \<and> length (stream_map header) = 8"
  then show "\<exists>s h'. ParseOpusHeader data data_size header = Some (s, h')"
    by (simp add: ParseOpusHeader_result Let_def)
next
  assume a: "19 \<le> data_size \<and> data_size \<le> length data \<and> length (stream_map header) = 8"
  let ?d = "data[10 := a, 11 := b, 16 := c, 17 := d]"
  have l: "data_size \<le> length ?d"
    using a by simp
  have n: "?d ! 9 = data ! 9" "?d ! 18 = data ! 18" "?d ! 19 = data ! 19" "?d ! 20 = data ! 20"
    by simp_all
  from a have a1: "19 \<le> data_size" and a2: "data_size \<le> length data"
    and a3: "length (stream_map header) = 8" by simp_all
  show "map_option fst (ParseOpusHeader ?d data_size header)
          = map_option fst (ParseOpusHeader data data_size header)"
    unfolding ParseOpusHeader_result [OF a1 l a3] ParseOpusHeader_result [OF a1 a2 a3] n Let_def
    by simp
qed

theorem lenient_16bit_reads_witness:
  "ReadLE16 [1, 2, 3] 3 2 = Some 0
   \<and> ReadLE16 [1, 2, 3] 3 1 = Some 0x0302
   \<and> (\<exists>s h'. ParseOpusHeader (sample_bytes 2 0 []) 19 blank_header = Some (s, h'))
   \<and> map_option fst (ParseOpusHeader ((sample_bytes 2 0 [])[10 := 1, 11 := 2, 16 := 3, 17 := 4])
                         19 blank_header)
       = map_option fst (ParseOpusHeader (sample_bytes 2 0 []) 19 blank_header)"
  using lenient_16bit_reads [where data = "[1, 2, 3]" and data_size = 3 and off = 2
      and header = blank_header]
    lenient_16bit_reads [where data = "[1, 2, 3]" and data_size = 3 and off = 1
      and header = blank_header]
    lenient_16bit_reads [where data = "sample_bytes 2 0 []" and data_size = 19 and off = 10
      and header = blank_header and a = 1 and b = 2 and c = 3 and d = 4]
  by (simp add: sample_bytes_def bytes_of_string_def blank_header_def)

subsection \<open>C10\<close>

text \<open>
  C10. A capacity of exactly \<open>21 + channels\<close>: for 3 to 8 channels \<open>WriteOpusHeader\<close>
  succeeds and returns \<open>21 + channels + 1\<close>, which is greater than the capacity; the
  bytes of the buffer from index \<open>output_size\<close> on, where the pad byte would be, are the
  ones that were there before the call.
\<close>

theorem exact_capacity_pad_outside:
  assumes "3 \<le> channels header" "channels header \<le> 8"
    and "output_size = 21 + nat (channels header)" "output_size \<le> length output"
  shows "\<exists>out. WriteOpusHeader header rate output output_size
                 = Some (21 + channels header + 1, out)
           \<and> int output_size < 21 + channels header + 1
           \<and> length out = length output
           \<and> drop output_size out = drop output_size output"
proof -
  define fx where "fx = opus_head_fixed header rate"
  define row where
    "row = take (nat (channels header)) (kOpusChannelMap ! nat (channels header - 1))"
  have fx: "length fx = 18"
    by (simp add: fx_def length_opus_head_fixed)
  have row: "length row = nat (channels header)"
    unfolding row_def using assms(1,2) by (intro length_take_row) simp_all
  have out: "WriteOpusHeader header rate output output_size =
               Some (22 + channels header,
                     fx @ [1, word_of_int (channels header), 0] @ row @ drop output_size output)"
    using assms by (simp add: WriteOpusHeader_high fx_def row_def)
  have "length (fx @ [1, word_of_int (channels header), 0] @ row @ drop output_size output)
          = length output"
    using assms(3,4) by (simp add: fx row)
  then show ?thesis
    unfolding out
    using assms(1) layout_high_rest [OF fx row, of 1 "word_of_int (channels header)" 0
        "drop output_size output"]
    by (simp add: assms(3))
qed

theorem exact_capacity_pad_outside_witness:
  "\<exists>out. WriteOpusHeader (sample_header 3) 48000 (replicate 26 0xAA) 24 = Some (25, out)
      \<and> (24::int) < 25 \<and> length out = 26 \<and> drop 24 out = [0xAA, 0xAA]"
  using exact_capacity_pad_outside [of "sample_header 3" 24 "replicate 26 0xAA" 48000]
  by (auto simp add: sample_header_def replicate_numeral_Cons)

end
